theory Spec2Isabelle
  imports Main "HOL-Library.Sublist"
begin

section \<open>Strings\<close>

text \<open>
  A JavaScript string is a sequence of UTF-16 code units, and \<open>length\<close>, \<open>substring\<close>,
  \<open>trim\<close> and the regular expressions of the program all work on code units. A string
  is therefore a list of code units, each a natural number; \<open>utf16\<close> turns an ASCII
  literal into its code units.
\<close>

type_synonym jsstring = "nat list"

definition utf16 :: "string \<Rightarrow> jsstring" where
  "utf16 s = map of_char s"

text \<open>
  \<open>String.prototype.trim\<close> removes the WhiteSpace and LineTerminator code points of
  ECMAScript from both ends.
\<close>

definition is_whitespace :: "nat \<Rightarrow> bool" where
  "is_whitespace c \<longleftrightarrow>
     c \<in> {9, 10, 11, 12, 13, 32, 160, 5760, 8232, 8233, 8239, 8287, 12288, 65279}
     \<or> (8192 \<le> c \<and> c \<le> 8202)"

definition trim :: "jsstring \<Rightarrow> jsstring" where
  "trim s = rev (dropWhile is_whitespace (rev (dropWhile is_whitespace s)))"

text \<open>The class \<open>\w\<close> of a regular expression without flags: \<open>[A-Za-z0-9_]\<close>.\<close>

definition is_word :: "nat \<Rightarrow> bool" where
  "is_word c \<longleftrightarrow> (48 \<le> c \<and> c \<le> 57) \<or> (65 \<le> c \<and> c \<le> 90) \<or> (97 \<le> c \<and> c \<le> 122) \<or> c = 95"

section \<open>UI.escapeHtml\<close>

text \<open>
  \<open>escapeHtml\<close> assigns the text to \<open>div.textContent\<close> and reads \<open>div.innerHTML\<close> back.
  The HTML serialisation of a text node replaces \<open>&\<close>, the no-break space U+00A0,
  \<open><\<close> and \<open>>\<close> by their entities and leaves every other code unit as it is.
\<close>

definition escape_unit :: "nat \<Rightarrow> jsstring" where
  "escape_unit c =
     (if c = 38 then utf16 ''&amp;''
      else if c = 160 then utf16 ''&nbsp;''
      else if c = 60 then utf16 ''&lt;''
      else if c = 62 then utf16 ''&gt;''
      else [c])"

definition escapeHtml :: "jsstring \<Rightarrow> jsstring" where
  "escapeHtml text = concat (map escape_unit text)"

section \<open>Chat.formatMessage\<close>

text \<open>
  \<open>s.replace(re, r)\<close> with a global regular expression scans \<open>s\<close> from the left. At
  each index it tries to match \<open>re\<close>; on a match it emits the replacement and goes on
  behind the match, otherwise it copies the code unit and moves one index on. A matcher
  gives, for the text that starts at the current index, the replacement and the text
  behind the match. Every match of the five expressions of \<open>formatMessage\<close> is at least
  one code unit long (lemma \<open>matchers_consume\<close>), which the test on the lengths
  records.
\<close>

type_synonym matcher = "jsstring \<Rightarrow> (jsstring \<times> jsstring) option"

function replace_all :: "matcher \<Rightarrow> jsstring \<Rightarrow> jsstring" where
  "replace_all m [] = []"
| "replace_all m (c # cs) =
     (case m (c # cs) of
        None \<Rightarrow> c # replace_all m cs
      | Some (r, rest) \<Rightarrow>
          if length rest < length (c # cs) then r @ replace_all m rest
          else c # replace_all m cs)"
  by pat_completeness auto
termination
  by (relation "measure (\<lambda>(m, s). length s)") auto

text \<open>
  The markup that the callback of the code-block expression returns: the template
  literal of the source with its line breaks and indentation, \<open>lang || 'code'\<close> and
  \<open>code.trim()\<close>. \<open>lang\<close> is \<open>undefined\<close> (here \<open>None\<close>) when the group \<open>(\w+)?\<close> took no part
  in the match.
\<close>

definition code_block_html :: "jsstring option \<Rightarrow> jsstring \<Rightarrow> jsstring" where
  "code_block_html lang code =
     [10] @ replicate 16 32 @ utf16 ''<div class=\"code-block\">''
     @ [10] @ replicate 20 32 @ utf16 ''<div class=\"code-header\">''
     @ [10] @ replicate 24 32 @ utf16 ''<span class=\"code-language\">''
         @ (case lang of None \<Rightarrow> utf16 ''code'' | Some l \<Rightarrow> l) @ utf16 ''</span>''
     @ [10] @ replicate 24 32 @ utf16 ''<button class=\"code-copy-btn\">Copy</button>''
     @ [10] @ replicate 20 32 @ utf16 ''</div>''
     @ [10] @ replicate 20 32 @ utf16 ''<div class=\"code-content\"><code>''
         @ trim code @ utf16 ''</code></div>''
     @ [10] @ replicate 16 32 @ utf16 ''</div>''
     @ [10] @ replicate 12 32"

text \<open>
  The lazy group \<open>([\s\S]*?)\<close> followed by three backticks: the text up to the nearest
  closing fence, and the text behind that fence.
\<close>

fun find_fence :: "jsstring \<Rightarrow> (jsstring \<times> jsstring) option" where
  "find_fence [] = None"
| "find_fence (c # cs) =
     (if take 3 (c # cs) = [96, 96, 96] then Some ([], drop 3 (c # cs))
      else (case find_fence cs of
              None \<Rightarrow> None
            | Some (code, rest) \<Rightarrow> Some (c # code, rest)))"

text \<open>
  \<open>/```(\w+)?\n([\s\S]*?)```/\<close> at the current index. The greedy \<open>(\w+)?\<close> can only
  succeed with the longest run of word characters: behind a shorter run, or behind no
  run when there is one, the next code unit is a word character and not the line feed
  that the expression asks for.
\<close>

definition match_code_block :: matcher where
  "match_code_block s =
     (if take 3 s = [96, 96, 96] then
        (let lang = takeWhile is_word (drop 3 s);
             r = dropWhile is_word (drop 3 s)
         in case r of
              [] \<Rightarrow> None
            | c # body \<Rightarrow>
                if c = 10 then
                  (case find_fence body of
                     None \<Rightarrow> None
                   | Some (code, rest) \<Rightarrow>
                       Some (code_block_html (if lang = [] then None else Some lang) code, rest))
                else None)
      else None)"

text \<open>
  \<open>/`([^`]+)`/\<close>, \<open>/\*\*([^*]+)\*\*/\<close> and \<open>/\*([^*]+)\*/\<close>: an opening delimiter, the
  longest non-empty run without the delimiter character, and the closing delimiter. A
  shorter run is followed by a code unit of the run, never by the delimiter.
\<close>

definition match_inline_code :: matcher where
  "match_inline_code s =
     (case s of
        [] \<Rightarrow> None
      | c # r \<Rightarrow>
          if c = 96 then
            (let g = takeWhile (\<lambda>x. x \<noteq> 96) r; r' = dropWhile (\<lambda>x. x \<noteq> 96) r
             in if g \<noteq> [] \<and> r' \<noteq> [] then Some (utf16 ''<code>'' @ g @ utf16 ''</code>'', tl r')
                else None)
          else None)"

definition match_bold :: matcher where
  "match_bold s =
     (if take 2 s = [42, 42] then
        (let g = takeWhile (\<lambda>x. x \<noteq> 42) (drop 2 s); r' = dropWhile (\<lambda>x. x \<noteq> 42) (drop 2 s)
         in if g \<noteq> [] \<and> take 2 r' = [42, 42]
            then Some (utf16 ''<strong>'' @ g @ utf16 ''</strong>'', drop 2 r')
            else None)
      else None)"

definition match_italic :: matcher where
  "match_italic s =
     (case s of
        [] \<Rightarrow> None
      | c # r \<Rightarrow>
          if c = 42 then
            (let g = takeWhile (\<lambda>x. x \<noteq> 42) r; r' = dropWhile (\<lambda>x. x \<noteq> 42) r
             in if g \<noteq> [] \<and> r' \<noteq> [] then Some (utf16 ''<em>'' @ g @ utf16 ''</em>'', tl r')
                else None)
          else None)"

definition match_newline :: matcher where
  "match_newline s =
     (case s of
        [] \<Rightarrow> None
      | c # r \<Rightarrow> if c = 10 then Some (utf16 ''<br>'', r) else None)"

definition formatMessage :: "jsstring \<Rightarrow> jsstring" where
  "formatMessage content =
     (let formatted = escapeHtml content;
          formatted = replace_all match_code_block formatted;
          formatted = replace_all match_inline_code formatted;
          formatted = replace_all match_bold formatted;
          formatted = replace_all match_italic formatted;
          formatted = replace_all match_newline formatted
      in formatted)"

section \<open>Data model\<close>

text \<open>
  Messages and conversations are the object literals that \<open>chat.js\<close> builds. A field
  that an object may lack reads \<open>undefined\<close> in JavaScript and is \<open>None\<close> here. A time
  stamp is the instant in milliseconds whose ISO text the code stores. The gateway's
  \<open>confidence\<close> is passed through untouched, so its type is a parameter.
\<close>

datatype role = User | Ai

record 'n message =
  role :: role
  content :: jsstring
  timestamp :: nat
  confidence :: "'n option"
  sources :: "jsstring list option"

record 'n conversation =
  conv_id :: jsstring
  title :: jsstring
  conv_messages :: "'n message list"
  created_at :: nat
  updated_at :: nat
  starred :: bool
  pinned :: "bool option"
  lastMessage :: "jsstring option"
  session_id :: "jsstring option"

text \<open>What the gateway answers to a chat request, and the body of such a request.\<close>

record 'n reply =
  response :: "jsstring option"
  reply_confidence :: "'n option"
  reply_sources :: "jsstring list option"

record request =
  req_message :: jsstring
  req_session_id :: jsstring

text \<open>
  \<open>SyntaxError\<close> is what \<open>JSON.parse\<close> throws and \<open>TypeError\<close> a property read on \<open>null\<close>.
  \<open>Request_failed m\<close> is whatever \<open>API.request\<close> throws on a transport failure or on
  a response that is not ok, with its message \<open>m\<close>.
\<close>

datatype error = SyntaxError | TypeError

datatype gateway_error = Request_failed jsstring

text \<open>
  The conversations are kept as one JSON text under one key of \<open>localStorage\<close>.
  \<open>JSON.parse\<close> and \<open>JSON.stringify\<close> belong to the platform; the text is represented by
  its entries, each either the JSON of a conversation or text that is not JSON, and
  \<open>JSON.parse\<close> accepts a text only as a whole. \<open>Empty_text\<close> is the empty string,
  which the conditional of \<open>getConversations\<close> takes as false.
\<close>

datatype 'c entry_text = Readable 'c | Unreadable

datatype 'c item_text = Empty_text | Collection "'c entry_text list"

fun JSON_parse :: "'c entry_text list \<Rightarrow> error + 'c list" where
  "JSON_parse [] = Inr []"
| "JSON_parse (Unreadable # es) = Inl SyntaxError"
| "JSON_parse (Readable c # es) =
     (case JSON_parse es of Inl e \<Rightarrow> Inl e | Inr cs \<Rightarrow> Inr (c # cs))"

definition JSON_stringify :: "'c list \<Rightarrow> 'c item_text" where
  "JSON_stringify cs = Collection (map Readable cs)"

text \<open>
  The state that the chat page works on: the fields of the \<open>Chat\<close> object, the text
  area, the send button, the title and the rendered lists of the document, the toasts
  shown, the stored conversations and the chat requests sent to the gateway.

  \<open>updateConversation\<close> assigns the buffer array itself to the \<open>messages\<close> field of the
  current conversation, so that from then on a push onto the buffer is a push onto the
  conversation's messages. \<open>messages_shared\<close> records that the two are one array; while
  it holds, \<open>conv_messages\<close> of the current conversation follows the buffer.
\<close>

record 'n world =
  currentConversation :: "'n conversation option"
  sessionId :: "jsstring option"
  messages :: "'n message list"
  messages_shared :: bool
  isTyping :: bool
  chatInput :: jsstring
  sendBtn_disabled :: bool
  chatTitle :: jsstring
  chatMessages :: "jsstring list"
  pinnedSection :: bool
  pinnedList :: "'n conversation list"
  recentList :: "'n conversation list"
  toasts :: "(jsstring \<times> jsstring \<times> jsstring) list"
  conversations_item :: "'n conversation item_text option"
  requests :: "request list"

text \<open>The \<open>Chat\<close> constructor on an empty page with nothing stored.\<close>

definition initial_world :: "'n world" where
  "initial_world =
     \<lparr>currentConversation = None, sessionId = None, messages = [],
      messages_shared = False, isTyping = False,
      chatInput = [], sendBtn_disabled = False, chatTitle = [], chatMessages = [],
      pinnedSection = False, pinnedList = [], recentList = [], toasts = [],
      conversations_item = None, requests = []\<rparr>"

definition MAX_MESSAGE_LENGTH :: nat where
  "MAX_MESSAGE_LENGTH = 3000"

section \<open>The API module\<close>

text \<open>
  \<open>Date.now()\<close> and \<open>Math.random().toString(36)\<close> are read from the platform; a reading
  is the pair of both. \<open>decimal\<close> is the text of a number inside a template literal.
\<close>

type_synonym reading = "nat \<times> jsstring"

fun decimal :: "nat \<Rightarrow> jsstring" where
  "decimal n = (if n < 10 then [48 + n] else decimal (n div 10) @ [48 + n mod 10])"

declare decimal.simps [simp del]

definition generateSessionId :: "reading \<Rightarrow> jsstring" where
  "generateSessionId rd =
     utf16 ''session_'' @ decimal (fst rd) @ utf16 ''_'' @ take 9 (drop 2 (snd rd))"

definition generateConversationId :: "reading \<Rightarrow> jsstring" where
  "generateConversationId rd =
     utf16 ''conv_'' @ decimal (fst rd) @ utf16 ''_'' @ take 9 (drop 2 (snd rd))"

text \<open>
  \<open>API.sendMessage\<close> posts \<open>{message, session_id: sessionId || this.generateSessionId()}\<close>;
  \<open>null\<close> and the empty string are both false. The request is recorded; what the
  gateway answers is an input of the caller.
\<close>

definition api_sendMessage :: "reading \<Rightarrow> jsstring \<Rightarrow> jsstring option \<Rightarrow> 'n world \<Rightarrow> 'n world" where
  "api_sendMessage rd message sid w =
     w\<lparr>requests := requests w @
          [\<lparr>req_message = message,
            req_session_id =
              (case sid of
                 None \<Rightarrow> generateSessionId rd
               | Some i \<Rightarrow> if i \<noteq> [] then i else generateSessionId rd)\<rparr>]\<rparr>"

definition getConversations :: "'n world \<Rightarrow> error + 'n conversation list" where
  "getConversations w =
     (case conversations_item w of
        None \<Rightarrow> Inr []
      | Some Empty_text \<Rightarrow> Inr []
      | Some (Collection es) \<Rightarrow> JSON_parse es)"

text \<open>\<open>Array.prototype.findIndex\<close>; \<open>None\<close> is the result \<open>-1\<close>.\<close>

fun findIndex :: "('a \<Rightarrow> bool) \<Rightarrow> 'a list \<Rightarrow> nat option" where
  "findIndex P [] = None"
| "findIndex P (x # xs) =
     (if P x then Some 0 else (case findIndex P xs of None \<Rightarrow> None | Some i \<Rightarrow> Some (Suc i)))"

definition saveConversation ::
  "'n conversation \<Rightarrow> 'n world \<Rightarrow> (error + 'n conversation) \<times> 'n world" where
  "saveConversation conversation w =
     (case getConversations w of
        Inl e \<Rightarrow> (Inl e, w)
      | Inr conversations \<Rightarrow>
          (let conversations' =
                 (case findIndex (\<lambda>c. conv_id c = conv_id conversation) conversations of
                    Some index \<Rightarrow> conversations[index := conversation]
                  | None \<Rightarrow> conversation # conversations)
           in (Inr conversation,
               w\<lparr>conversations_item := Some (JSON_stringify conversations')\<rparr>)))"

definition deleteConversation :: "jsstring \<Rightarrow> 'n world \<Rightarrow> (error + unit) \<times> 'n world" where
  "deleteConversation i w =
     (case getConversations w of
        Inl e \<Rightarrow> (Inl e, w)
      | Inr conversations \<Rightarrow>
          (Inr (),
           w\<lparr>conversations_item :=
                Some (JSON_stringify (filter (\<lambda>c. conv_id c \<noteq> i) conversations))\<rparr>))"

section \<open>The Chat module\<close>

text \<open>
  \<open>handleInput\<close> runs on every input event of the text area, after the value changed;
  of the character counter only the effect on the send button is kept.
\<close>

definition handleInput :: "'n world \<Rightarrow> 'n world" where
  "handleInput w =
     (let len = length (chatInput w);
          w1 = w\<lparr>sendBtn_disabled := (len = 0)\<rparr>
      in if len > MAX_MESSAGE_LENGTH - 300 then
           (if len > MAX_MESSAGE_LENGTH then w1\<lparr>sendBtn_disabled := True\<rparr> else w1)
         else w1)"

definition input_event :: "jsstring \<Rightarrow> 'n world \<Rightarrow> 'n world" where
  "input_event v w = handleInput (w\<lparr>chatInput := v\<rparr>)"

text \<open>
  \<open>addMessage\<close> pushes the message onto the buffer, and with it onto the messages of
  the current conversation when they are the same array, and renders its text through
  \<open>formatMessage\<close>.
\<close>

definition addMessage :: "'n message \<Rightarrow> 'n world \<Rightarrow> 'n world" where
  "addMessage message w =
     w\<lparr>messages := messages w @ [message],
       currentConversation :=
         (if messages_shared w
          then map_option (\<lambda>c. c\<lparr>conv_messages := messages w @ [message]\<rparr>)
                 (currentConversation w)
          else currentConversation w),
       chatMessages := chatMessages w @ [formatMessage (content message)]\<rparr>"

text \<open>
  The platform readings that \<open>startNewConversation\<close> takes, in the order of the source.
  The new conversation and the buffer get an empty array each.
\<close>

record new_env =
  id_reading :: reading
  created_time :: nat
  updated_time :: nat
  session_reading :: reading

definition startNewConversation :: "new_env \<Rightarrow> 'n world \<Rightarrow> 'n world" where
  "startNewConversation ne w =
     w\<lparr>currentConversation :=
         Some \<lparr>conv_id = generateConversationId (id_reading ne),
               title = utf16 ''New conversation'',
               conv_messages = [],
               created_at = created_time ne,
               updated_at = updated_time ne,
               starred = False,
               pinned = None,
               lastMessage = None,
               session_id = None\<rparr>,
       sessionId := Some (generateSessionId (session_reading ne)),
       messages := [],
       messages_shared := False,
       chatMessages := [],
       chatTitle := utf16 ''New conversation''\<rparr>"

text \<open>
  The two lists of \<open>loadConversationsList\<close>. \<open>c.pinned\<close> is true only when the field is
  there and true.
\<close>

definition pinned_of :: "'n conversation list \<Rightarrow> 'n conversation list" where
  "pinned_of conversations = filter (\<lambda>c. pinned c = Some True) conversations"

definition recent_of :: "'n conversation list \<Rightarrow> 'n conversation list" where
  "recent_of conversations = take 15 (filter (\<lambda>c. \<not> pinned c = Some True) conversations)"

definition loadConversationsList :: "'n world \<Rightarrow> (error + unit) \<times> 'n world" where
  "loadConversationsList w =
     (case getConversations w of
        Inl e \<Rightarrow> (Inl e, w)
      | Inr conversations \<Rightarrow>
          (let w1 = (if length (pinned_of conversations) > 0
                     then w\<lparr>pinnedSection := True, pinnedList := pinned_of conversations\<rparr>
                     else w\<lparr>pinnedSection := False\<rparr>)
           in (Inr (), w1\<lparr>recentList := recent_of conversations\<rparr>)))"

text \<open>
  \<open>updateConversation\<close>. An exception of the storage leaves the assignments made before
  it in place, so the state is returned beside the outcome. The assignment
  \<open>this.currentConversation.messages = this.messages\<close> makes the conversation's messages
  the very array of the buffer; \<open>JSON.stringify\<close> writes its value at that moment to the
  store.
\<close>

definition updateConversation ::
  "new_env \<Rightarrow> nat \<Rightarrow> jsstring \<Rightarrow> jsstring option \<Rightarrow> 'n world \<Rightarrow> (error + unit) \<times> 'n world" where
  "updateConversation ne update_time userMessage aiResponse w =
     (let w1 = (case currentConversation w of
                  None \<Rightarrow> startNewConversation ne w
                | Some _ \<Rightarrow> w)
      in case currentConversation w1 of
           None \<Rightarrow> (Inl TypeError, w1)
         | Some c \<Rightarrow>
             (let c1 = (if length (messages w1) = 2
                        then c\<lparr>title := take 50 userMessage
                                   @ (if length userMessage > 50 then utf16 ''...'' else [])\<rparr>
                        else c);
                  w2 = (if length (messages w1) = 2 then w1\<lparr>chatTitle := title c1\<rparr> else w1);
                  c2 = c1\<lparr>conv_messages := messages w1,
                          lastMessage := map_option (take 100) aiResponse,
                          updated_at := update_time\<rparr>;
                  w3 = w2\<lparr>currentConversation := Some c2, messages_shared := True\<rparr>
              in case saveConversation c2 w3 of
                   (Inl e, w4) \<Rightarrow> (Inl e, w4)
                 | (Inr _, w4) \<Rightarrow> loadConversationsList w4))"

text \<open>
  The platform readings of one call of \<open>sendMessage\<close>, in the order of the source, and the
  call itself. The gateway's answer is the input \<open>outcome\<close>: \<open>Inl\<close> when
  \<open>window.api.sendMessage\<close> throws. \<open>updateConversation\<close> is not awaited, so what it
  throws does not reach the \<open>catch\<close>.
\<close>

record turn_env =
  user_time :: nat
  api_reading :: reading
  ai_time :: nat
  new_conversation :: new_env
  update_time :: nat

definition sendMessage :: "turn_env \<Rightarrow> gateway_error + 'n reply \<Rightarrow> 'n world \<Rightarrow> 'n world" where
  "sendMessage env outcome w =
     (let message = trim (chatInput w)
      in if message = [] then w
         else
           (let w1 = addMessage \<lparr>role = User, content = message, timestamp = user_time env,
                                 confidence = None, sources = None\<rparr> w;
                w2 = w1\<lparr>chatInput := [], sendBtn_disabled := True, isTyping := True\<rparr>;
                w3 = api_sendMessage (api_reading env) message (sessionId w2) w2
            in case outcome of
                 Inl err \<Rightarrow>
                   w3\<lparr>isTyping := False,
                      toasts := toasts w3 @
                        [(utf16 ''Error'',
                          (case err of
                             Request_failed m \<Rightarrow>
                               if m \<noteq> [] then m else utf16 ''Failed to send message''),
                          utf16 ''error'')]\<rparr>
               | Inr r \<Rightarrow>
                   (let w4 = w3\<lparr>isTyping := False\<rparr>;
                        w5 = (case response r of
                                None \<Rightarrow> w4
                              | Some a \<Rightarrow>
                                  if a \<noteq> [] then
                                    addMessage \<lparr>role = Ai, content = a, timestamp = ai_time env,
                                                confidence = reply_confidence r,
                                                sources = reply_sources r\<rparr> w4
                                  else w4)
                    in snd (updateConversation (new_conversation env) (update_time env)
                              message (response r) w5))))"

text \<open>
  The two ways to send: a click on the send button, which the browser delivers only
  while the button is enabled, and the Enter key in the text area.
\<close>

definition click_send :: "turn_env \<Rightarrow> gateway_error + 'n reply \<Rightarrow> 'n world \<Rightarrow> 'n world" where
  "click_send env outcome w = (if sendBtn_disabled w then w else sendMessage env outcome w)"

definition keydown_enter :: "turn_env \<Rightarrow> gateway_error + 'n reply \<Rightarrow> 'n world \<Rightarrow> 'n world" where
  "keydown_enter env outcome w = sendMessage env outcome w"

section \<open>The Auth module\<close>

text \<open>
  The claims of a token's payload that \<open>loadUser\<close> reads, and the user object it builds.
  \<open>exp\<close> is in seconds, \<open>Date.now()\<close> in milliseconds.
\<close>

record payload =
  p_sub :: "jsstring option"
  p_user_id :: "jsstring option"
  p_email :: "jsstring option"
  p_name :: "jsstring option"
  p_username :: "jsstring option"
  p_exp :: "int option"

record user =
  u_id :: "jsstring option"
  u_email :: "jsstring option"
  u_name :: "jsstring option"
  u_exp :: "int option"

text \<open>
  The state of the page as the Auth module sees it: its \<open>user\<close> field, all of
  \<open>localStorage\<close> by key, the token cached in \<open>window.api\<close>, the address of the page and
  how often \<open>updateUI\<close> has run.
\<close>

record auth_world =
  user :: "user option"
  localStorage :: "jsstring \<rightharpoonup> jsstring"
  api_token :: "jsstring option"
  location_href :: jsstring
  ui_updates :: nat

text \<open>\<open>a || b\<close> on strings that may be missing.\<close>

definition or_else :: "jsstring option \<Rightarrow> jsstring option \<Rightarrow> jsstring option" where
  "or_else a b = (case a of None \<Rightarrow> b | Some s \<Rightarrow> if s \<noteq> [] then Some s else b)"

definition getToken :: "auth_world \<Rightarrow> jsstring option" where
  "getToken w = localStorage w (utf16 ''auth_token'')"

definition removeToken :: "auth_world \<Rightarrow> auth_world" where
  "removeToken w = w\<lparr>localStorage := (localStorage w)(utf16 ''auth_token'' := None), api_token := None\<rparr>"

definition logout :: "auth_world \<Rightarrow> auth_world" where
  "logout w =
     (let w1 = removeToken w;
          w2 = w1\<lparr>user := None\<rparr>;
          w3 = w2\<lparr>localStorage := Map.empty\<rparr>
      in w3\<lparr>location_href := utf16 ''/auth.html''\<rparr>)"

definition updateUI :: "auth_world \<Rightarrow> auth_world" where
  "updateUI w = w\<lparr>ui_updates := Suc (ui_updates w)\<rparr>"

text \<open>
  \<open>loadUser\<close>. \<open>decode\<close> stands for \<open>JSON.parse(atob(token.split('.')[1]))\<close> of the
  platform and is \<open>None\<close> when one of the three steps throws; \<open>now\<close> is \<open>Date.now()\<close>. The
  test \<open>this.user.exp && ...\<close> takes a missing \<open>exp\<close> and the number zero as false.
\<close>

definition loadUser :: "(jsstring \<Rightarrow> payload option) \<Rightarrow> int \<Rightarrow> auth_world \<Rightarrow> auth_world" where
  "loadUser decode now w =
     (case getToken w of
        None \<Rightarrow> w
      | Some token \<Rightarrow>
          if token = [] then w
          else
            (case decode token of
               None \<Rightarrow> logout w
             | Some p \<Rightarrow>
                 (let w1 = w\<lparr>user := Some \<lparr>u_id = or_else (p_sub p) (p_user_id p),
                                            u_email = p_email p,
                                            u_name = or_else (p_name p) (p_username p),
                                            u_exp = p_exp p\<rparr>\<rparr>
                  in if (case p_exp p of None \<Rightarrow> False | Some e \<Rightarrow> e \<noteq> 0 \<and> now \<ge> e * 1000)
                     then logout w1
                     else updateUI w1)))"

text \<open>The access test of \<open>checkAuth\<close>: a stored token or the guest flag.\<close>

definition isLoggedIn :: "auth_world \<Rightarrow> bool" where
  "isLoggedIn w = (case getToken w of None \<Rightarrow> False | Some t \<Rightarrow> t \<noteq> [])"

definition isGuestMode :: "auth_world \<Rightarrow> bool" where
  "isGuestMode w = (localStorage w (utf16 ''auth_mode'') = Some (utf16 ''guest''))"

definition hasAccess :: "auth_world \<Rightarrow> bool" where
  "hasAccess w = (isLoggedIn w \<or> isGuestMode w)"

section \<open>Notions of the specification and example data\<close>

text \<open>A text with every line feed replaced by the break marker and nothing else changed.\<close>

definition with_breaks :: "jsstring \<Rightarrow> jsstring" where
  "with_breaks s = concat (map (\<lambda>c. if c = 10 then utf16 ''<br>'' else [c]) s)"

text \<open>The fenced example of the specification: three backticks, js, a line feed, the code, three backticks.\<close>

definition fenced_js :: jsstring where
  "fenced_js = utf16 ''```js'' @ [10] @ utf16 ''console.log(1)```''"

definition example_conversation :: "string \<Rightarrow> bool option \<Rightarrow> nat conversation" where
  "example_conversation i p =
     \<lparr>conv_id = utf16 i, title = utf16 ''New conversation'', conv_messages = [],
      created_at = 0, updated_at = 0, starred = False, pinned = p, lastMessage = None,
      session_id = None\<rparr>"

definition stored_world :: "'n conversation entry_text list \<Rightarrow> 'n world" where
  "stored_world es = initial_world\<lparr>conversations_item := Some (Collection es)\<rparr>"

text \<open>Platform readings of one turn, a page with a stored token, and a token payload.\<close>

definition example_env :: turn_env where
  "example_env =
     \<lparr>user_time = 1000, api_reading = (1001, utf16 ''0.4fzyo82mvyr''), ai_time = 1002,
      new_conversation = \<lparr>id_reading = (1003, utf16 ''0.k2j5x9q1w8e''), created_time = 1003,
                          updated_time = 1003, session_reading = (1003, utf16 ''0.z7y6x5w4v3u'')\<rparr>,
      update_time = 1004\<rparr>"

definition example_auth_world :: auth_world where
  "example_auth_world =
     \<lparr>user = None,
      localStorage = [utf16 ''auth_token'' \<mapsto> utf16 ''h.p.s'', utf16 ''mitra-bot-theme'' \<mapsto> utf16 ''dark''],
      api_token = Some (utf16 ''h.p.s''),
      location_href = utf16 ''/'',
      ui_updates = 0\<rparr>"

definition example_payload :: "int option \<Rightarrow> payload" where
  "example_payload e =
     \<lparr>p_sub = Some (utf16 ''u1''), p_user_id = None, p_email = Some (utf16 ''a@b.c''),
      p_name = None, p_username = Some (utf16 ''ann''), p_exp = e\<rparr>"

section \<open>Every match consumes text\<close>

lemma find_fence_length: "find_fence b = Some (code, rest) \<Longrightarrow> length rest < length b"
  by (induction b arbitrary: code) (auto split: if_splits option.splits)

lemma match_code_block_consumes:
  assumes "match_code_block s = Some (r, rest)"
  shows "length rest < length s"
proof -
  from assms obtain body code where
    d: "dropWhile is_word (drop 3 s) = 10 # body" and f: "find_fence body = Some (code, rest)"
    by (auto simp: match_code_block_def Let_def split: if_splits list.splits option.splits)
  have "length (dropWhile is_word (drop 3 s)) \<le> length (drop 3 s)"
    by (rule length_dropWhile_le)
  with d have "length body < length s" by simp
  with find_fence_length [OF f] show ?thesis by simp
qed

lemma tl_dropWhile_length: "length (tl (dropWhile P r)) < Suc (length r)"
  using length_dropWhile_le [of P r] by simp

lemma match_inline_code_consumes:
  assumes "match_inline_code s = Some (r, rest)"
  shows "length rest < length s"
proof -
  from assms obtain x where "s = 96 # x" "rest = tl (dropWhile (\<lambda>x. x \<noteq> 96) x)"
    by (auto simp: match_inline_code_def Let_def split: list.splits if_splits)
  then show ?thesis by (simp only: tl_dropWhile_length length_Cons)
qed

lemma match_italic_consumes:
  assumes "match_italic s = Some (r, rest)"
  shows "length rest < length s"
proof -
  from assms obtain x where "s = 42 # x" "rest = tl (dropWhile (\<lambda>x. x \<noteq> 42) x)"
    by (auto simp: match_italic_def Let_def split: list.splits if_splits)
  then show ?thesis by (simp only: tl_dropWhile_length length_Cons)
qed

lemma match_bold_consumes:
  assumes "match_bold s = Some (r, rest)"
  shows "length rest < length s"
proof -
  from assms have t: "take 2 s = [42, 42]"
    and rest: "rest = drop 2 (dropWhile (\<lambda>x. x \<noteq> 42) (drop 2 s))"
    by (auto simp: match_bold_def Let_def split: if_splits)
  from t have "s \<noteq> []" by auto
  moreover have "length rest \<le> length (drop 2 s)"
    unfolding rest using length_dropWhile_le [of "\<lambda>x. x \<noteq> 42" "drop 2 s"] by simp
  ultimately show ?thesis using t by (cases s) (auto split: if_splits)
qed

lemma match_newline_consumes: "match_newline s = Some (r, rest) \<Longrightarrow> length rest < length s"
  by (auto simp: match_newline_def split: list.splits if_splits)

lemma matchers_consume:
  assumes "m \<in> {match_code_block, match_inline_code, match_bold, match_italic, match_newline}"
    and "m s = Some (r, rest)"
  shows "length rest < length s"
  using assms match_code_block_consumes match_inline_code_consumes match_bold_consumes
    match_italic_consumes match_newline_consumes
  by auto

section \<open>Lemmas on the formatter\<close>

lemma replace_all_match:
  "m s = Some (r, rest) \<Longrightarrow> length rest < length s \<Longrightarrow> replace_all m s = r @ replace_all m rest"
  by (cases s) auto

lemma replace_all_no_match:
  "(\<And>c cs. c \<in> set s \<Longrightarrow> m (c # cs) = None) \<Longrightarrow> replace_all m s = s"
  by (induction s) auto

lemma replace_all_newline: "replace_all match_newline s = with_breaks s"
  by (induction s) (auto simp: match_newline_def with_breaks_def)

lemma with_breaks_append: "with_breaks (a @ b) = with_breaks a @ with_breaks b"
  by (simp add: with_breaks_def)

lemma with_breaks_id: "10 \<notin> set s \<Longrightarrow> with_breaks s = s"
  by (induction s) (auto simp: with_breaks_def)

lemma escapeHtml_id: "set s \<inter> {38, 160, 60, 62} = {} \<Longrightarrow> escapeHtml s = s"
  by (induction s) (auto simp: escapeHtml_def escape_unit_def)

lemma no_backtick_code_block: "96 \<notin> set s \<Longrightarrow> replace_all match_code_block s = s"
  by (rule replace_all_no_match) (auto simp: match_code_block_def)

lemma no_backtick_inline: "96 \<notin> set s \<Longrightarrow> replace_all match_inline_code s = s"
  by (rule replace_all_no_match) (auto simp: match_inline_code_def)

lemma no_asterisk_bold: "42 \<notin> set s \<Longrightarrow> replace_all match_bold s = s"
  by (rule replace_all_no_match) (auto simp: match_bold_def)

lemma no_asterisk_italic: "42 \<notin> set s \<Longrightarrow> replace_all match_italic s = s"
  by (rule replace_all_no_match) (auto simp: match_italic_def)

lemma escape_unit_set: "x \<in> set (escape_unit c) \<Longrightarrow> x = c \<or> x \<in> set (utf16 ''&ampnbsltg;'')"
  by (auto simp: escape_unit_def utf16_def split: if_splits)

lemma escapeHtml_keeps_out:
  "c \<notin> set s \<Longrightarrow> c \<notin> set (utf16 ''&ampnbsltg;'') \<Longrightarrow> c \<notin> set (escapeHtml s)"
  by (auto simp: escapeHtml_def dest: escape_unit_set)

lemma formatMessage_escaped_breaks:
  assumes "96 \<notin> set s" "42 \<notin> set s"
  shows "formatMessage s = with_breaks (escapeHtml s)"
proof -
  have b: "96 \<notin> set (escapeHtml s)" using assms(1) by (rule escapeHtml_keeps_out) (simp add: utf16_def)
  have a: "42 \<notin> set (escapeHtml s)" using assms(2) by (rule escapeHtml_keeps_out) (simp add: utf16_def)
  show ?thesis
    by (simp add: formatMessage_def no_backtick_code_block no_backtick_inline no_asterisk_bold no_asterisk_italic a b replace_all_newline)
qed

lemma formatMessage_fixed:
  assumes "set s \<inter> {96, 42, 38, 160, 60, 62, 10} = {}"
  shows "formatMessage s = s"
proof -
  have "formatMessage s = with_breaks (escapeHtml s)"
    using assms by (intro formatMessage_escaped_breaks) auto
  moreover have "escapeHtml s = s"
    using assms by (intro escapeHtml_id) auto
  moreover have "with_breaks s = s"
    using assms by (intro with_breaks_id) auto
  ultimately show ?thesis by simp
qed

section \<open>Lemmas on the stored collection\<close>

lemma JSON_parse_stringify: "JSON_parse (map Readable cs) = Inr cs"
  by (induction cs) auto

lemma JSON_parse_cases:
  "JSON_parse es = (if Unreadable \<in> set es then Inl SyntaxError
                    else Inr (concat (map (\<lambda>e. case e of Readable c \<Rightarrow> [c] | Unreadable \<Rightarrow> []) es)))"
proof (induction es)
  case Nil
  show ?case by simp
next
  case (Cons e es)
  then show ?case by (cases e) auto
qed

lemma findIndex_None: "findIndex P xs = None \<longleftrightarrow> (\<forall>x \<in> set xs. \<not> P x)"
  by (induction xs) (auto split: option.splits)

lemma findIndex_Some:
  "findIndex P xs = Some i \<Longrightarrow> i < length xs \<and> P (xs ! i) \<and> (\<forall>j < i. \<not> P (xs ! j))"
proof (induction xs arbitrary: i)
  case Nil
  then show ?case by simp
next
  case (Cons x xs)
  show ?case
  proof (cases "P x")
    case True
    with Cons.prems show ?thesis by simp
  next
    case False
    with Cons.prems obtain k where k: "findIndex P xs = Some k" "i = Suc k"
      by (auto split: option.splits)
    from Cons.IH [OF k(1)] False k(2) show ?thesis
      by (auto simp: nth_Cons split: nat.splits)
  qed
qed

lemma find_update:
  assumes "i < length xs" "P y" "\<forall>j < i. \<not> P (xs ! j)"
  shows "find P (xs[i := y]) = Some y"
  using assms
proof (induction xs arbitrary: i)
  case Nil
  then show ?case by simp
next
  case (Cons x xs)
  show ?case
  proof (cases i)
    case 0
    with Cons.prems show ?thesis by simp
  next
    case (Suc k)
    with Cons.prems have "\<not> P x" by auto
    moreover have "find P (xs[k := y]) = Some y"
      using Cons.prems Suc by (intro Cons.IH) auto
    ultimately show ?thesis using Suc by simp
  qed
qed

lemma distinct_update_same_key:
  assumes "distinct (map f xs)" "i < length xs" "f y = f (xs ! i)"
  shows "distinct (map f (xs[i := y]))"
proof -
  have "map f (xs[i := y]) = map f xs"
    using assms(2,3) by (simp add: map_update list_update_same_conv)
  with assms(1) show ?thesis by simp
qed

lemma deleteConversation_distinct:
  assumes "getConversations w = Inr cs" and "distinct (map conv_id cs)"
  shows "getConversations (snd (deleteConversation i w)) = Inr (filter (\<lambda>c. conv_id c \<noteq> i) cs)"
    and "distinct (map conv_id (filter (\<lambda>c. conv_id c \<noteq> i) cs))"
  using assms
  by (simp_all add: deleteConversation_def getConversations_def JSON_stringify_def
      JSON_parse_stringify distinct_map_filter)

lemma pinned_recent_disjoint: "set (pinned_of cs) \<inter> set (recent_of cs) = {}"
  by (auto simp: pinned_of_def recent_of_def dest: in_set_takeD)

lemma pinned_recent_disjoint_ids:
  assumes "distinct (map conv_id cs)"
  shows "conv_id ` set (pinned_of cs) \<inter> conv_id ` set (recent_of cs) = {}"
proof (rule ccontr)
  assume "conv_id ` set (pinned_of cs) \<inter> conv_id ` set (recent_of cs) \<noteq> {}"
  then obtain x y where x: "x \<in> set (pinned_of cs)" and y: "y \<in> set (recent_of cs)"
    and e: "conv_id x = conv_id y" by auto
  from x y have "x \<in> set cs" "y \<in> set cs"
    by (auto simp: pinned_of_def recent_of_def dest: in_set_takeD)
  with assms e have "x = y" by (auto simp: distinct_map dest: inj_onD)
  with x y pinned_recent_disjoint [of cs] show False by auto
qed

section \<open>Saving a conversation\<close>

text \<open>
  Claim C2, as amended. Whenever the stored collection can be read, \<open>saveConversation c\<close>
  returns \<open>c\<close> and leaves a readable collection. If an entry with the id of \<open>c\<close> was
  stored, the first such entry is replaced at its index and the number of entries stays
  the same; otherwise \<open>c\<close> is put in front. Looking the id of \<open>c\<close> up afterwards finds
  \<open>c\<close> itself, and ids that were unique before the call are unique after it. When the
  stored collection cannot be read, \<open>saveConversation\<close> throws the error of the read and
  writes nothing.
\<close>

theorem saveConversation_upsert:
  "(getConversations w = Inr cs \<longrightarrow>
      (\<exists>cs'. fst (saveConversation c w) = Inr c
           \<and> getConversations (snd (saveConversation c w)) = Inr cs'
           \<and> (conv_id c \<in> conv_id ` set cs \<longrightarrow>
                length cs' = length cs
                \<and> (\<exists>i < length cs. conv_id (cs ! i) = conv_id c
                       \<and> (\<forall>j < i. conv_id (cs ! j) \<noteq> conv_id c) \<and> cs' = cs[i := c]))
           \<and> (conv_id c \<notin> conv_id ` set cs \<longrightarrow> cs' = c # cs)
           \<and> find (\<lambda>x. conv_id x = conv_id c) cs' = Some c
           \<and> (distinct (map conv_id cs) \<longrightarrow> distinct (map conv_id cs'))))
   \<and> (getConversations w = Inl e \<longrightarrow> saveConversation c w = (Inl e, w))"
proof (intro conjI impI)
  assume e: "getConversations w = Inl e"
  then show "saveConversation c w = (Inl e, w)"
    by (simp add: saveConversation_def)
next
  assume r: "getConversations w = Inr cs"
  show "\<exists>cs'. fst (saveConversation c w) = Inr c
           \<and> getConversations (snd (saveConversation c w)) = Inr cs'
           \<and> (conv_id c \<in> conv_id ` set cs \<longrightarrow>
                length cs' = length cs
                \<and> (\<exists>i < length cs. conv_id (cs ! i) = conv_id c
                       \<and> (\<forall>j < i. conv_id (cs ! j) \<noteq> conv_id c) \<and> cs' = cs[i := c]))
           \<and> (conv_id c \<notin> conv_id ` set cs \<longrightarrow> cs' = c # cs)
           \<and> find (\<lambda>x. conv_id x = conv_id c) cs' = Some c
           \<and> (distinct (map conv_id cs) \<longrightarrow> distinct (map conv_id cs'))"
  proof (cases "findIndex (\<lambda>x. conv_id x = conv_id c) cs")
    case None
    then have fresh: "conv_id c \<notin> conv_id ` set cs"
      by (auto simp: findIndex_None)
    have "fst (saveConversation c w) = Inr c"
      and "getConversations (snd (saveConversation c w)) = Inr (c # cs)"
      using r None
      by (simp_all add: saveConversation_def getConversations_def JSON_stringify_def
          JSON_parse_stringify)
    with fresh show ?thesis by auto
  next
    case (Some i)
    from findIndex_Some [OF Some]
    have i: "i < length cs" "conv_id (cs ! i) = conv_id c"
      "\<forall>j < i. conv_id (cs ! j) \<noteq> conv_id c" by auto
    then have there: "conv_id c \<in> conv_id ` set cs"
      by (metis imageI nth_mem)
    have "fst (saveConversation c w) = Inr c"
      and "getConversations (snd (saveConversation c w)) = Inr (cs[i := c])"
      using r Some
      by (simp_all add: saveConversation_def getConversations_def JSON_stringify_def
          JSON_parse_stringify)
    moreover have "find (\<lambda>x. conv_id x = conv_id c) (cs[i := c]) = Some c"
      using i by (intro find_update) auto
    moreover have "distinct (map conv_id cs) \<longrightarrow> distinct (map conv_id (cs[i := c]))"
      using i by (auto intro: distinct_update_same_key)
    ultimately show ?thesis using i there by auto
  qed
qed

theorem saveConversation_upsert_witness:
  "getConversations (stored_world [Readable (example_conversation ''a'' None),
                                    Readable (example_conversation ''b'' None)])
     = Inr [example_conversation ''a'' None, example_conversation ''b'' None]
   \<and> getConversations
        (snd (saveConversation (example_conversation ''b'' (Some True))
               (stored_world [Readable (example_conversation ''a'' None),
                              Readable (example_conversation ''b'' None)])))
     = Inr [example_conversation ''a'' None, example_conversation ''b'' (Some True)]
   \<and> getConversations (stored_world [Readable (example_conversation ''a'' None), Unreadable])
     = Inl SyntaxError
   \<and> saveConversation (example_conversation ''b'' (Some True))
        (stored_world [Readable (example_conversation ''a'' None), Unreadable])
     = (Inl SyntaxError, stored_world [Readable (example_conversation ''a'' None), Unreadable])"
  using saveConversation_upsert
    [of "stored_world [Readable (example_conversation ''a'' None),
                       Readable (example_conversation ''b'' None)]"
        "[example_conversation ''a'' None, example_conversation ''b'' None]"
        "example_conversation ''b'' (Some True)" SyntaxError]
    saveConversation_upsert
    [of "stored_world [Readable (example_conversation ''a'' None), Unreadable]"
        "[]" "example_conversation ''b'' (Some True)" SyntaxError]
  by (simp add: stored_world_def getConversations_def saveConversation_def JSON_stringify_def
      example_conversation_def utf16_def)

text \<open>
  A readable store that holds the id \<open>a\<close> twice: saving a conversation with that id
  replaces the first entry only, and the id is still there twice afterwards.
\<close>

theorem saveConversation_duplicate_counterexample:
  "getConversations
     (snd (saveConversation (example_conversation ''a'' (Some True))
            (stored_world [Readable (example_conversation ''a'' None),
                           Readable (example_conversation ''a'' (Some False))])))
     = Inr [example_conversation ''a'' (Some True), example_conversation ''a'' (Some False)]
   \<and> \<not> distinct (map conv_id [example_conversation ''a'' (Some True),
                               example_conversation ''a'' (Some False)])"
  by (simp add: stored_world_def getConversations_def saveConversation_def JSON_stringify_def
      example_conversation_def)

section \<open>Listing the conversations\<close>

text \<open>
  Claim C5. When the stored collection can be read, \<open>loadConversationsList\<close> renders as
  recent list the first fifteen entries that are not pinned and, when there is a pinned
  entry, as pinned list all entries that are pinned. Both lists keep the order of the
  store, and no conversation is in both: no entry, and when the ids of the store are
  unique no id either.
\<close>

theorem partition_pinned_recent:
  assumes "getConversations w = Inr cs"
  shows "fst (loadConversationsList w) = Inr ()
       \<and> recentList (snd (loadConversationsList w)) = recent_of cs
       \<and> pinnedSection (snd (loadConversationsList w)) = (pinned_of cs \<noteq> [])
       \<and> (pinned_of cs \<noteq> [] \<longrightarrow> pinnedList (snd (loadConversationsList w)) = pinned_of cs)
       \<and> subseq (pinned_of cs) cs \<and> subseq (recent_of cs) cs
       \<and> set (pinned_of cs) = {c \<in> set cs. pinned c = Some True}
       \<and> prefix (recent_of cs) (filter (\<lambda>c. pinned c \<noteq> Some True) cs)
       \<and> length (recent_of cs) = min 15 (length (filter (\<lambda>c. pinned c \<noteq> Some True) cs))
       \<and> set (pinned_of cs) \<inter> set (recent_of cs) = {}
       \<and> (distinct (map conv_id cs) \<longrightarrow>
            conv_id ` set (pinned_of cs) \<inter> conv_id ` set (recent_of cs) = {})"
proof -
  have "subseq (take 15 (filter (\<lambda>c. pinned c \<noteq> Some True) cs)) (filter (\<lambda>c. pinned c \<noteq> Some True) cs)"
    by (simp add: take_is_prefix prefix_imp_subseq)
  then have "subseq (recent_of cs) cs"
    unfolding recent_of_def by (rule subseq_order.order_trans) simp
  moreover have "prefix (recent_of cs) (filter (\<lambda>c. pinned c \<noteq> Some True) cs)"
    by (simp add: recent_of_def take_is_prefix)
  moreover have "fst (loadConversationsList w) = Inr ()"
    "recentList (snd (loadConversationsList w)) = recent_of cs"
    "pinnedSection (snd (loadConversationsList w)) = (pinned_of cs \<noteq> [])"
    "pinned_of cs \<noteq> [] \<longrightarrow> pinnedList (snd (loadConversationsList w)) = pinned_of cs"
    using assms by (simp_all add: loadConversationsList_def)
  moreover have "subseq (pinned_of cs) cs"
    "set (pinned_of cs) = {c \<in> set cs. pinned c = Some True}"
    "length (recent_of cs) = min 15 (length (filter (\<lambda>c. pinned c \<noteq> Some True) cs))"
    by (simp_all add: pinned_of_def recent_of_def)
  ultimately show ?thesis
    using pinned_recent_disjoint [of cs] pinned_recent_disjoint_ids [of cs]
    by blast
qed

theorem partition_pinned_recent_witness:
  "getConversations (stored_world [Readable (example_conversation ''a'' None),
                                    Readable (example_conversation ''b'' (Some True)),
                                    Readable (example_conversation ''c'' (Some False))])
     = Inr [example_conversation ''a'' None, example_conversation ''b'' (Some True),
            example_conversation ''c'' (Some False)]
   \<and> pinnedList (snd (loadConversationsList
        (stored_world [Readable (example_conversation ''a'' None),
                       Readable (example_conversation ''b'' (Some True)),
                       Readable (example_conversation ''c'' (Some False))])))
     = [example_conversation ''b'' (Some True)]
   \<and> recentList (snd (loadConversationsList
        (stored_world [Readable (example_conversation ''a'' None),
                       Readable (example_conversation ''b'' (Some True)),
                       Readable (example_conversation ''c'' (Some False))])))
     = [example_conversation ''a'' None, example_conversation ''c'' (Some False)]"
  using partition_pinned_recent
    [of "stored_world [Readable (example_conversation ''a'' None),
                       Readable (example_conversation ''b'' (Some True)),
                       Readable (example_conversation ''c'' (Some False))]"
        "[example_conversation ''a'' None, example_conversation ''b'' (Some True),
          example_conversation ''c'' (Some False)]"]
  by (simp add: stored_world_def getConversations_def pinned_of_def recent_of_def
      example_conversation_def)

section \<open>Reading a damaged collection\<close>

text \<open>
  Claim C8, as amended. \<open>getConversations\<close> gives the empty sequence when nothing or
  the empty text is stored, and otherwise all stored conversations when every entry of
  the text is readable. When some entry is unreadable it fails as a whole with the
  \<open>SyntaxError\<close> of \<open>JSON.parse\<close> and gives no conversation at all.
\<close>

theorem getConversations_whole_or_nothing:
  "getConversations w =
     (case conversations_item w of
        None \<Rightarrow> Inr []
      | Some Empty_text \<Rightarrow> Inr []
      | Some (Collection es) \<Rightarrow>
          if Unreadable \<in> set es then Inl SyntaxError
          else Inr (concat (map (\<lambda>e. case e of Readable c \<Rightarrow> [c] | Unreadable \<Rightarrow> []) es)))"
  by (simp add: getConversations_def JSON_parse_cases split: option.splits item_text.splits)

text \<open>
  A stored collection of one readable and one unreadable entry: reading it does not
  give the readable conversation, it throws.
\<close>

theorem corrupt_entry_counterexample:
  "getConversations (stored_world [Readable (example_conversation ''a'' None), Unreadable])
     = Inl SyntaxError"
  by (simp add: stored_world_def getConversations_def)

section \<open>Formatting a fenced code block\<close>

lemma fenced_escape: "escapeHtml fenced_js = fenced_js"
  by (rule escapeHtml_id) (simp add: fenced_js_def utf16_def)

lemma trim_console: "trim (utf16 ''console.log(1)'') = utf16 ''console.log(1)''"
  by (simp add: trim_def utf16_def is_whitespace_def)

lemma fenced_match:
  "match_code_block fenced_js = Some (code_block_html (Some (utf16 ''js'')) (utf16 ''console.log(1)''), [])"
  by (simp add: match_code_block_def fenced_js_def utf16_def is_word_def)

lemma fenced_blocks:
  "replace_all match_code_block fenced_js = code_block_html (Some (utf16 ''js'')) (utf16 ''console.log(1)'')"
  using replace_all_match [of match_code_block fenced_js _ "[]"] fenced_match by (simp add: fenced_js_def)

lemma block_units:
  "set (code_block_html (Some (utf16 ''js'')) (utf16 ''console.log(1)'')) \<inter> {96, 42} = {}"
  by (simp add: code_block_html_def trim_console) (simp add: utf16_def)

text \<open>
  Claim C6. The text that \<open>formatMessage\<close> returns for the fenced example. The code
  block carries the language \<open>js\<close> and the code \<open>console.log(1)\<close>, but the last stage has
  turned the eight line feeds of the block's own markup into break markers, one of them
  in front of the block and one behind it.
\<close>

theorem fenced_example_result:
  "formatMessage fenced_js =
     utf16 ''<br>'' @ replicate 16 32 @ utf16 ''<div class=\"code-block\">''
     @ utf16 ''<br>'' @ replicate 20 32 @ utf16 ''<div class=\"code-header\">''
     @ utf16 ''<br>'' @ replicate 24 32 @ utf16 ''<span class=\"code-language\">js</span>''
     @ utf16 ''<br>'' @ replicate 24 32 @ utf16 ''<button class=\"code-copy-btn\">Copy</button>''
     @ utf16 ''<br>'' @ replicate 20 32 @ utf16 ''</div>''
     @ utf16 ''<br>'' @ replicate 20 32 @ utf16 ''<div class=\"code-content\"><code>console.log(1)</code></div>''
     @ utf16 ''<br>'' @ replicate 16 32 @ utf16 ''</div>''
     @ utf16 ''<br>'' @ replicate 12 32"
proof -
  let ?b = "code_block_html (Some (utf16 ''js'')) (utf16 ''console.log(1)'')"
  have nb: "96 \<notin> set ?b" and na: "42 \<notin> set ?b" using block_units by auto
  have "formatMessage fenced_js = with_breaks ?b"
    by (simp add: formatMessage_def fenced_escape fenced_blocks no_backtick_inline [OF nb]
        no_asterisk_bold [OF na] no_asterisk_italic [OF na] replace_all_newline)
  also have "\<dots> = utf16 ''<br>'' @ replicate 16 32 @ utf16 ''<div class=\"code-block\">''
     @ utf16 ''<br>'' @ replicate 20 32 @ utf16 ''<div class=\"code-header\">''
     @ utf16 ''<br>'' @ replicate 24 32 @ utf16 ''<span class=\"code-language\">js</span>''
     @ utf16 ''<br>'' @ replicate 24 32 @ utf16 ''<button class=\"code-copy-btn\">Copy</button>''
     @ utf16 ''<br>'' @ replicate 20 32 @ utf16 ''</div>''
     @ utf16 ''<br>'' @ replicate 20 32 @ utf16 ''<div class=\"code-content\"><code>console.log(1)</code></div>''
     @ utf16 ''<br>'' @ replicate 16 32 @ utf16 ''</div>''
     @ utf16 ''<br>'' @ replicate 12 32"
    unfolding code_block_html_def trim_console
    by (simp add: with_breaks_append with_breaks_id) (simp add: with_breaks_def utf16_def)
  finally show ?thesis .
qed

section \<open>Formatting text without markdown\<close>

text \<open>
  Claim C7, as amended. For a text without backtick and asterisk, \<open>formatMessage\<close>
  returns the escaped text (\<open>&\<close>, \<open><\<close>, \<open>>\<close> and the no-break space replaced by their
  entities) with every line feed replaced by the break marker. If the text has none of
  these four characters either, the result is the text with only its line feeds
  replaced; if it has no line feed in addition, the result is the text itself, and
  formatting the result again changes nothing.
\<close>

theorem formatMessage_plain_text:
  assumes "96 \<notin> set s" and "42 \<notin> set s"
  shows "formatMessage s = with_breaks (escapeHtml s)
       \<and> (set s \<inter> {38, 160, 60, 62} = {} \<longrightarrow> formatMessage s = with_breaks s)
       \<and> (set s \<inter> {38, 160, 60, 62, 10} = {} \<longrightarrow>
            formatMessage s = s \<and> formatMessage (formatMessage s) = formatMessage s)"
proof -
  have e: "formatMessage s = with_breaks (escapeHtml s)"
    using assms by (rule formatMessage_escaped_breaks)
  have "formatMessage s = with_breaks s" if "set s \<inter> {38, 160, 60, 62} = {}"
    using e escapeHtml_id [OF that] by simp
  moreover have "formatMessage s = s" if "set s \<inter> {38, 160, 60, 62, 10} = {}"
    using that assms by (intro formatMessage_fixed) auto
  ultimately show ?thesis using e by simp
qed

theorem formatMessage_plain_text_witness:
  "96 \<notin> set (utf16 ''a < b'' @ [10] @ utf16 ''c'')
   \<and> 42 \<notin> set (utf16 ''a < b'' @ [10] @ utf16 ''c'')
   \<and> formatMessage (utf16 ''a < b'' @ [10] @ utf16 ''c'') = utf16 ''a &lt; b<br>c''
   \<and> formatMessage (utf16 ''abc'') = utf16 ''abc''"
  using formatMessage_plain_text [of "utf16 ''a < b'' @ [10] @ utf16 ''c''"]
    formatMessage_plain_text [of "utf16 ''abc''"]
  by (simp add: utf16_def with_breaks_def escapeHtml_def escape_unit_def)

text \<open>
  A text without backtick and asterisk that the formatter does change beyond its line
  feeds, and one on which formatting twice differs from formatting once.
\<close>

theorem formatMessage_plain_text_counterexample:
  "formatMessage (utf16 ''a<b'') = utf16 ''a&lt;b''
   \<and> formatMessage (utf16 ''a<b'') \<noteq> with_breaks (utf16 ''a<b'')
   \<and> formatMessage (formatMessage [10]) \<noteq> formatMessage [10]"
proof -
  have a: "formatMessage (utf16 ''a<b'') = utf16 ''a&lt;b''"
    using formatMessage_escaped_breaks [of "utf16 ''a<b''"]
    by (simp add: utf16_def with_breaks_def escapeHtml_def escape_unit_def)
  have b: "formatMessage [10] = utf16 ''<br>''"
    using formatMessage_escaped_breaks [of "[10]"]
    by (simp add: with_breaks_def escapeHtml_def escape_unit_def)
  have c: "formatMessage (utf16 ''<br>'') = utf16 ''&lt;br&gt;''"
    using formatMessage_escaped_breaks [of "utf16 ''<br>''"]
    by (simp add: utf16_def with_breaks_def escapeHtml_def escape_unit_def)
  show ?thesis
    unfolding b c unfolding a by (simp add: utf16_def with_breaks_def)
qed

section \<open>Lemmas on a turn\<close>

lemma utf16_eq_Nil: "utf16 s = [] \<longleftrightarrow> s = []"
  by (simp add: utf16_def)

lemma trim_hi: "trim (utf16 '' hi '') = utf16 ''hi''"
  by (simp add: trim_def utf16_def is_whitespace_def)

lemma trim_hello: "trim (utf16 ''hello'') = utf16 ''hello''"
  by (simp add: trim_def utf16_def is_whitespace_def)

lemma trim_replicate: "\<not> is_whitespace c \<Longrightarrow> trim (replicate n c) = replicate n c"
  by (simp add: trim_def)

lemma saveConversation_frame: "\<exists>ci. snd (saveConversation c w) = w\<lparr>conversations_item := ci\<rparr>"
proof (cases "getConversations w")
  case (Inl e)
  then have "snd (saveConversation c w) = w\<lparr>conversations_item := conversations_item w\<rparr>"
    by (simp add: saveConversation_def)
  then show ?thesis by blast
next
  case (Inr cs)
  then have "snd (saveConversation c w)
      = w\<lparr>conversations_item := Some (JSON_stringify
            (case findIndex (\<lambda>x. conv_id x = conv_id c) cs of
               Some index \<Rightarrow> cs[index := c] | None \<Rightarrow> c # cs))\<rparr>"
    by (simp add: saveConversation_def Let_def)
  then show ?thesis by blast
qed

lemma loadConversationsList_frame:
  "\<exists>ps pl rl. snd (loadConversationsList w) = w\<lparr>pinnedSection := ps, pinnedList := pl, recentList := rl\<rparr>"
proof (cases "getConversations w")
  case (Inl e)
  then have "snd (loadConversationsList w)
      = w\<lparr>pinnedSection := pinnedSection w, pinnedList := pinnedList w, recentList := recentList w\<rparr>"
    by (simp add: loadConversationsList_def)
  then show ?thesis by blast
next
  case (Inr cs)
  show ?thesis
  proof (cases "pinned_of cs = []")
    case True
    with Inr have "snd (loadConversationsList w)
      = w\<lparr>pinnedSection := False, pinnedList := pinnedList w, recentList := recent_of cs\<rparr>"
      by (simp add: loadConversationsList_def)
    then show ?thesis by blast
  next
    case False
    with Inr have "snd (loadConversationsList w)
      = w\<lparr>pinnedSection := True, pinnedList := pinned_of cs, recentList := recent_of cs\<rparr>"
      by (simp add: loadConversationsList_def)
    then show ?thesis by blast
  qed
qed

lemma persist_frame:
  "\<exists>ci ps pl rl.
     snd (case saveConversation c w of
            (Inl e, w4) \<Rightarrow> (Inl e, w4)
          | (Inr x, w4) \<Rightarrow> loadConversationsList w4)
       = w\<lparr>conversations_item := ci, pinnedSection := ps, pinnedList := pl, recentList := rl\<rparr>"
proof -
  obtain r w4 where s: "saveConversation c w = (r, w4)" by (cases "saveConversation c w")
  from saveConversation_frame [of c w] s obtain ci where w4: "w4 = w\<lparr>conversations_item := ci\<rparr>"
    by auto
  show ?thesis
  proof (cases r)
    case (Inl e)
    with s w4 have "snd (case saveConversation c w of
            (Inl e, w4) \<Rightarrow> (Inl e, w4)
          | (Inr x, w4) \<Rightarrow> loadConversationsList w4)
       = w\<lparr>conversations_item := ci, pinnedSection := pinnedSection w, pinnedList := pinnedList w,
           recentList := recentList w\<rparr>"
      by simp
    then show ?thesis by blast
  next
    case (Inr x)
    from loadConversationsList_frame [of w4] obtain ps pl rl where
      "snd (loadConversationsList w4) = w4\<lparr>pinnedSection := ps, pinnedList := pl, recentList := rl\<rparr>"
      by blast
    with s w4 Inr have "snd (case saveConversation c w of
            (Inl e, w4) \<Rightarrow> (Inl e, w4)
          | (Inr x, w4) \<Rightarrow> loadConversationsList w4)
       = w\<lparr>conversations_item := ci, pinnedSection := ps, pinnedList := pl, recentList := rl\<rparr>"
      by simp
    then show ?thesis by blast
  qed
qed

lemma updateConversation_active:
  assumes "currentConversation w = Some c"
  shows "\<exists>ci ps pl rl.
    snd (updateConversation ne t u a w) =
      w\<lparr>chatTitle := (if length (messages w) = 2
                       then take 50 u @ (if length u > 50 then utf16 ''...'' else [])
                       else chatTitle w),
        currentConversation :=
          Some (c\<lparr>title := (if length (messages w) = 2
                               then take 50 u @ (if length u > 50 then utf16 ''...'' else [])
                               else title c),
                  conv_messages := messages w,
                  lastMessage := map_option (take 100) a,
                  updated_at := t\<rparr>),
        messages_shared := True,
        conversations_item := ci, pinnedSection := ps, pinnedList := pl, recentList := rl\<rparr>"
proof (cases "length (messages w) = 2")
  case True
  let ?c2 = "c\<lparr>title := take 50 u @ (if length u > 50 then utf16 ''...'' else []),
               conv_messages := messages w, lastMessage := map_option (take 100) a, updated_at := t\<rparr>"
  let ?w3 = "w\<lparr>chatTitle := take 50 u @ (if length u > 50 then utf16 ''...'' else []),
               currentConversation := Some ?c2, messages_shared := True\<rparr>"
  have "snd (updateConversation ne t u a w) =
          snd (case saveConversation ?c2 ?w3 of
                 (Inl e, w4) \<Rightarrow> (Inl e, w4)
               | (Inr x, w4) \<Rightarrow> loadConversationsList w4)"
    using assms True by (simp add: updateConversation_def Let_def)
  with persist_frame [of ?c2 ?w3] True show ?thesis by auto
next
  case False
  let ?c2 = "c\<lparr>conv_messages := messages w, lastMessage := map_option (take 100) a, updated_at := t\<rparr>"
  let ?w3 = "w\<lparr>currentConversation := Some ?c2, messages_shared := True\<rparr>"
  have "snd (updateConversation ne t u a w) =
          snd (case saveConversation ?c2 ?w3 of
                 (Inl e, w4) \<Rightarrow> (Inl e, w4)
               | (Inr x, w4) \<Rightarrow> loadConversationsList w4)"
    using assms False by (simp add: updateConversation_def Let_def)
  with persist_frame [of ?c2 ?w3] False show ?thesis by auto
qed

lemma updateConversation_none:
  assumes "currentConversation w = None"
  shows "snd (updateConversation ne t u a w) = snd (updateConversation ne t u a (startNewConversation ne w))"
    and "\<exists>c. currentConversation (startNewConversation ne w) = Some c \<and> title c = utf16 ''New conversation''"
    and "messages (startNewConversation ne w) = []"
  using assms by (simp_all add: updateConversation_def startNewConversation_def)

lemma updateConversation_requests: "requests (snd (updateConversation ne t u a w)) = requests w"
proof (cases "currentConversation w")
  case None
  from updateConversation_none(2) [OF None, where ne = ne] obtain c
    where c: "currentConversation (startNewConversation ne w) = Some c" by blast
  from updateConversation_active [OF c, where ne = ne and t = t and u = u and a = a] obtain ci ps pl rl x y where
    "snd (updateConversation ne t u a (startNewConversation ne w)) =
      (startNewConversation ne w)\<lparr>chatTitle := x, currentConversation := y,
        messages_shared := True,
        conversations_item := ci, pinnedSection := ps, pinnedList := pl, recentList := rl\<rparr>"
    by blast
  with updateConversation_none(1) [OF None, where ne = ne and t = t and u = u and a = a] show ?thesis
    by (simp add: startNewConversation_def)
next
  case (Some c)
  from updateConversation_active [OF Some, where ne = ne and t = t and u = u and a = a] obtain ci ps pl rl x y where
    "snd (updateConversation ne t u a w) =
      w\<lparr>chatTitle := x, currentConversation := y, messages_shared := True,
        conversations_item := ci, pinnedSection := ps, pinnedList := pl, recentList := rl\<rparr>"
    by blast
  then show ?thesis by simp
qed

lemma updateConversation_shares:
  "messages_shared (snd (updateConversation ne t u a w))
   \<and> map_option conv_messages (currentConversation (snd (updateConversation ne t u a w)))
       = Some (messages (snd (updateConversation ne t u a w)))"
proof (cases "currentConversation w")
  case None
  from updateConversation_none(2) [OF None, where ne = ne] obtain c
    where c: "currentConversation (startNewConversation ne w) = Some c" by blast
  from updateConversation_active [OF c, where ne = ne and t = t and u = u and a = a]
    updateConversation_none(1) [OF None, where ne = ne and t = t and u = u and a = a]
  show ?thesis by auto
next
  case (Some c)
  from updateConversation_active [OF Some, where ne = ne and t = t and u = u and a = a]
  show ?thesis by auto
qed

lemma sendMessage_empty: "trim (chatInput w) = [] \<Longrightarrow> sendMessage env outcome w = w"
  by (simp add: sendMessage_def)

lemma sendMessage_requests:
  assumes "trim (chatInput w) \<noteq> []"
  shows "map req_message (requests (sendMessage env outcome w))
           = map req_message (requests w) @ [trim (chatInput w)]"
proof (cases outcome)
  case (Inl err)
  with assms show ?thesis
    by (simp add: sendMessage_def Let_def addMessage_def api_sendMessage_def)
next
  case (Inr r)
  with assms show ?thesis
    by (simp add: sendMessage_def Let_def updateConversation_requests addMessage_def
        api_sendMessage_def split: option.splits)
qed

section \<open>The title of a conversation\<close>

text \<open>
  With an active conversation and an empty buffer, a turn that the gateway answers with
  a non-empty reply leaves two messages and the title made of the first fifty code
  units of the trimmed user text, followed by three dots exactly when that text is
  longer. Once a conversation holds two or more messages no later call of
  \<open>sendMessage\<close> changes its title, whatever the input and the gateway's answer.
\<close>

lemma addMessage_current:
  assumes "currentConversation w = Some c"
  shows "\<exists>c'. currentConversation (addMessage m w) = Some c' \<and> title c' = title c"
  using assms by (simp add: addMessage_def)

lemma title_after_first_turn:
  assumes "currentConversation w = Some c" and "messages w = []"
    and "trim (chatInput w) \<noteq> []" and "response r = Some a" and "a \<noteq> []"
  shows "\<exists>c'. currentConversation (sendMessage env (Inr r) w) = Some c'
           \<and> title c' = take 50 (trim (chatInput w))
                          @ (if length (trim (chatInput w)) > 50 then utf16 ''...'' else [])
           \<and> length (messages (sendMessage env (Inr r) w)) = 2"
proof -
  let ?u = "trim (chatInput w)"
  let ?w5 = "addMessage \<lparr>role = Ai, content = a, timestamp = ai_time env,
                          confidence = reply_confidence r, sources = reply_sources r\<rparr>
              ((api_sendMessage (api_reading env) ?u (sessionId w)
                 ((addMessage \<lparr>role = User, content = ?u, timestamp = user_time env,
                               confidence = None, sources = None\<rparr> w)
                    \<lparr>chatInput := [], sendBtn_disabled := True, isTyping := True\<rparr>))
                 \<lparr>isTyping := False\<rparr>)"
  have s: "sendMessage env (Inr r) w
            = snd (updateConversation (new_conversation env) (update_time env) ?u (Some a) ?w5)"
    using assms(3,4,5) by (simp add: sendMessage_def Let_def addMessage_def api_sendMessage_def)
  have l: "length (messages ?w5) = 2"
    using assms(2) by (simp add: addMessage_def api_sendMessage_def)
  obtain c5 where c: "currentConversation ?w5 = Some c5"
    using assms(1) by (cases "messages_shared w") (simp_all add: addMessage_def api_sendMessage_def)
  from updateConversation_active [OF c, where ne = "new_conversation env" and t = "update_time env"
      and u = ?u and a = "Some a"] l s
  show ?thesis by auto
qed

lemma title_kept_by_later_turn:
  assumes "currentConversation w = Some c" and "length (messages w) \<ge> 2"
  shows "\<exists>c'. currentConversation (sendMessage env outcome w) = Some c'
           \<and> title c' = title c
           \<and> length (messages (sendMessage env outcome w)) \<ge> 2"
proof (cases "trim (chatInput w) = []")
  case True
  with assms show ?thesis by (simp add: sendMessage_empty)
next
  case False
  let ?u = "trim (chatInput w)"
  let ?w4 = "(api_sendMessage (api_reading env) ?u (sessionId w)
               ((addMessage \<lparr>role = User, content = ?u, timestamp = user_time env,
                             confidence = None, sources = None\<rparr> w)
                  \<lparr>chatInput := [], sendBtn_disabled := True, isTyping := True\<rparr>))
               \<lparr>isTyping := False\<rparr>"
  have c4: "\<exists>c'. currentConversation ?w4 = Some c' \<and> title c' = title c"
    and l4: "length (messages ?w4) \<ge> 3"
    using assms by (simp_all add: addMessage_def api_sendMessage_def)
  show ?thesis
  proof (cases outcome)
    case (Inl err)
    have "sendMessage env outcome w
            = ?w4\<lparr>toasts := toasts ?w4 @
                      [(utf16 ''Error'',
                        (case err of Request_failed m \<Rightarrow>
                           if m \<noteq> [] then m else utf16 ''Failed to send message''),
                        utf16 ''error'')]\<rparr>"
      using False Inl by (simp add: sendMessage_def Let_def addMessage_def api_sendMessage_def)
    with c4 l4 show ?thesis by auto
  next
    case (Inr r)
    obtain w5 c5 where w5: "sendMessage env outcome w
            = snd (updateConversation (new_conversation env) (update_time env) ?u (response r) w5)"
      and c5: "currentConversation w5 = Some c5" and t5: "title c5 = title c"
      and l5: "length (messages w5) \<ge> 3"
    proof (cases "case response r of None \<Rightarrow> False | Some a \<Rightarrow> a \<noteq> []")
      case True
      then obtain a where a: "response r = Some a" "a \<noteq> []" by (auto split: option.splits)
      let ?m = "\<lparr>role = Ai, content = a, timestamp = ai_time env,
                  confidence = reply_confidence r, sources = reply_sources r\<rparr>"
      from c4 obtain c4' where c4': "currentConversation ?w4 = Some c4'" "title c4' = title c"
        by blast
      from addMessage_current [OF c4'(1), of ?m] obtain c5
        where c5: "currentConversation (addMessage ?m ?w4) = Some c5" "title c5 = title c4'"
        by blast
      have "sendMessage env outcome w
              = snd (updateConversation (new_conversation env) (update_time env) ?u (response r)
                      (addMessage ?m ?w4))"
        using False Inr a by (simp add: sendMessage_def Let_def addMessage_def api_sendMessage_def)
      moreover have "length (messages (addMessage ?m ?w4)) \<ge> 3"
        using l4 by (simp add: addMessage_def)
      ultimately show ?thesis using that [of "addMessage ?m ?w4" c5] c5 c4'(2) by simp
    next
      case no: False
      from c4 obtain c4' where c4': "currentConversation ?w4 = Some c4'" "title c4' = title c"
        by blast
      have "sendMessage env outcome w
              = snd (updateConversation (new_conversation env) (update_time env) ?u (response r) ?w4)"
        using False Inr no
        by (auto simp add: sendMessage_def Let_def addMessage_def api_sendMessage_def
            split: option.splits)
      then show ?thesis using that [of ?w4 c4'] c4' l4 by simp
    qed
    from updateConversation_active [OF c5, where ne = "new_conversation env" and t = "update_time env"
      and u = ?u and a = "response r"] l5 w5 t5
    show ?thesis by auto
  qed
qed

text \<open>
  Claim C1. The first turn on a \<open>Chat\<close> object that has no current conversation yet
  (the state the constructor leaves): the user sends \<open>hello\<close> and the gateway answers
  \<open>hi\<close>. \<open>updateConversation\<close> starts a new conversation, which empties the buffer
  before the count is tested, so the title stays \<open>New conversation\<close> and the
  conversation is stored without messages.
\<close>

theorem first_turn_without_conversation:
  "currentConversation
     (sendMessage env (Inr \<lparr>response = Some (utf16 ''hi''), reply_confidence = None, reply_sources = None\<rparr>)
       (initial_world\<lparr>chatInput := utf16 ''hello''\<rparr>))
   = Some \<lparr>conv_id = generateConversationId (id_reading (new_conversation env)),
            title = utf16 ''New conversation'',
            conv_messages = [],
            created_at = created_time (new_conversation env),
            updated_at = update_time env,
            starred = False, pinned = None, lastMessage = Some (utf16 ''hi''), session_id = None\<rparr>
   \<and> messages
     (sendMessage env (Inr \<lparr>response = Some (utf16 ''hi''), reply_confidence = None, reply_sources = None\<rparr>)
       (initial_world\<lparr>chatInput := utf16 ''hello''\<rparr>)) = []
   \<and> getConversations
     (sendMessage env (Inr \<lparr>response = Some (utf16 ''hi''), reply_confidence = None, reply_sources = None\<rparr>)
       (initial_world\<lparr>chatInput := utf16 ''hello''\<rparr>)) 
   = Inr [\<lparr>conv_id = generateConversationId (id_reading (new_conversation env)),
            title = utf16 ''New conversation'',
            conv_messages = [],
            created_at = created_time (new_conversation env),
            updated_at = update_time env,
            starred = False, pinned = None, lastMessage = Some (utf16 ''hi''), session_id = None\<rparr>]"
proof -
  have hi: "utf16 ''hi'' \<noteq> []" "take 100 (utf16 ''hi'') = utf16 ''hi''" by (simp_all add: utf16_def)
  show ?thesis
    by (simp add: sendMessage_def trim_hello Let_def addMessage_def api_sendMessage_def initial_world_def
      updateConversation_def startNewConversation_def saveConversation_def getConversations_def
      JSON_stringify_def loadConversationsList_def pinned_of_def recent_of_def hi utf16_eq_Nil)
qed

section \<open>Validation of the outgoing message\<close>

text \<open>
  Claim C3. A text of 3001 code units, one more than \<open>MAX_MESSAGE_LENGTH\<close>.
  \<open>handleInput\<close> disables the send button, so a click sends nothing; the Enter key
  calls \<open>sendMessage\<close>, which has no test on the length and posts the whole text to the
  gateway.
\<close>

theorem oversize_message_is_sent:
  "MAX_MESSAGE_LENGTH < length (replicate 3001 (97::nat))
   \<and> sendBtn_disabled (input_event (replicate 3001 97) w)
   \<and> click_send env outcome (input_event (replicate 3001 97) w) = input_event (replicate 3001 97) w
   \<and> map req_message (requests (keydown_enter env outcome (input_event (replicate 3001 97) w)))
       = map req_message (requests w) @ [replicate 3001 97]"
proof -
  let ?w = "input_event (replicate 3001 97) w"
  have i: "chatInput ?w = replicate 3001 97" "requests ?w = requests w" "sendBtn_disabled ?w"
    by (simp_all add: input_event_def handleInput_def Let_def MAX_MESSAGE_LENGTH_def)
  have t: "trim (replicate 3001 97) = replicate 3001 97"
    by (rule trim_replicate) (simp add: is_whitespace_def)
  have "trim (chatInput ?w) \<noteq> []" using i(1) t by simp
  from sendMessage_requests [OF this, of env outcome] i t
  show ?thesis by (simp add: keydown_enter_def click_send_def MAX_MESSAGE_LENGTH_def)
qed

section \<open>A failing gateway\<close>

text \<open>
  Claim C4. When the text is not empty after trimming and the gateway call throws,
  the buffer is the old buffer followed by the user message and no assistant message,
  one toast with the error's message (or \<open>Failed to send message\<close>) is shown, and
  exactly one request has been sent. The current conversation is as before, except that
  its messages, when they are the buffer array, hold the user message too; nothing is
  written to the stored collection and the typing indicator is off.
\<close>

theorem sendMessage_gateway_failure:
  assumes "trim (chatInput w) \<noteq> []"
  shows "messages (sendMessage env (Inl (Request_failed m)) w)
           = messages w @ [\<lparr>role = User, content = trim (chatInput w), timestamp = user_time env,
                             confidence = None, sources = None\<rparr>]
       \<and> toasts (sendMessage env (Inl (Request_failed m)) w)
           = toasts w @ [(utf16 ''Error'',
                          if m \<noteq> [] then m else utf16 ''Failed to send message'',
                          utf16 ''error'')]
       \<and> requests (sendMessage env (Inl (Request_failed m)) w)
           = requests w @ [\<lparr>req_message = trim (chatInput w),
                              req_session_id =
                                (case sessionId w of
                                   None \<Rightarrow> generateSessionId (api_reading env)
                                 | Some i \<Rightarrow> if i \<noteq> [] then i else generateSessionId (api_reading env))\<rparr>]
       \<and> currentConversation (sendMessage env (Inl (Request_failed m)) w)
           = (if messages_shared w
              then map_option
                     (\<lambda>c. c\<lparr>conv_messages :=
                              messages w @ [\<lparr>role = User, content = trim (chatInput w),
                                              timestamp = user_time env,
                                              confidence = None, sources = None\<rparr>]\<rparr>)
                     (currentConversation w)
              else currentConversation w)
       \<and> messages_shared (sendMessage env (Inl (Request_failed m)) w) = messages_shared w
       \<and> conversations_item (sendMessage env (Inl (Request_failed m)) w) = conversations_item w
       \<and> isTyping (sendMessage env (Inl (Request_failed m)) w) = False"
  using assms by (simp add: sendMessage_def Let_def addMessage_def api_sendMessage_def)

theorem sendMessage_gateway_failure_witness:
  "trim (chatInput ((initial_world :: nat world)
           \<lparr>currentConversation := Some (example_conversation ''a'' None),
             messages_shared := True, chatInput := utf16 '' hi ''\<rparr>)) \<noteq> []
   \<and> messages (sendMessage example_env (Inl (Request_failed (utf16 ''HTTP error! status: 500'')))
                 ((initial_world :: nat world)
                    \<lparr>currentConversation := Some (example_conversation ''a'' None),
                      messages_shared := True, chatInput := utf16 '' hi ''\<rparr>))
       = [\<lparr>role = User, content = utf16 ''hi'', timestamp = 1000, confidence = None, sources = None\<rparr>]
   \<and> currentConversation
        (sendMessage example_env (Inl (Request_failed (utf16 ''HTTP error! status: 500'')))
                 ((initial_world :: nat world)
                    \<lparr>currentConversation := Some (example_conversation ''a'' None),
                      messages_shared := True, chatInput := utf16 '' hi ''\<rparr>))
       = Some ((example_conversation ''a'' None)
                \<lparr>conv_messages := [\<lparr>role = User, content = utf16 ''hi'', timestamp = 1000,
                                      confidence = None, sources = None\<rparr>]\<rparr>)
   \<and> toasts (sendMessage example_env (Inl (Request_failed (utf16 ''HTTP error! status: 500'')))
                 ((initial_world :: nat world)
                    \<lparr>currentConversation := Some (example_conversation ''a'' None),
                      messages_shared := True, chatInput := utf16 '' hi ''\<rparr>))
       = [(utf16 ''Error'', utf16 ''HTTP error! status: 500'', utf16 ''error'')]
   \<and> map req_message
         (requests (sendMessage example_env (Inl (Request_failed (utf16 ''HTTP error! status: 500'')))
                 ((initial_world :: nat world)
                    \<lparr>currentConversation := Some (example_conversation ''a'' None),
                      messages_shared := True, chatInput := utf16 '' hi ''\<rparr>)))
       = [utf16 ''hi'']"
  using sendMessage_gateway_failure
    [of "(initial_world :: nat world)
           \<lparr>currentConversation := Some (example_conversation ''a'' None),
             messages_shared := True, chatInput := utf16 '' hi ''\<rparr>" example_env
        "utf16 ''HTTP error! status: 500''"]
  by (simp add: trim_hi utf16_eq_Nil initial_world_def example_env_def)

section \<open>Loading the user from a token\<close>

text \<open>
  A token that does not decode, and one whose \<open>exp\<close> is not zero and not after the
  current time, are logged out: the user, the cached token and all of \<open>localStorage\<close>
  are cleared, the page goes to the auth view, \<open>updateUI\<close> does not run, and no access
  is left.
\<close>

lemma logout_state:
  "logout w = \<lparr>user = None, localStorage = Map.empty, api_token = None,
               location_href = utf16 ''/auth.html'', ui_updates = ui_updates w\<rparr>"
  by (simp add: logout_def removeToken_def Let_def)

lemma logout_no_access: "\<not> hasAccess (logout w)"
  by (simp add: logout_state hasAccess_def isLoggedIn_def isGuestMode_def getToken_def)

lemma loadUser_expired:
  assumes "getToken w = Some t" and "t \<noteq> []" and "decode t = Some p"
    and "p_exp p = Some e" and "e \<noteq> 0" and "e * 1000 \<le> now"
  shows "loadUser decode now w = logout w"
  using assms by (simp add: loadUser_def Let_def logout_state)

lemma loadUser_undecodable:
  assumes "getToken w = Some t" and "t \<noteq> []" and "decode t = None"
  shows "loadUser decode now w = logout w"
  using assms by (simp add: loadUser_def)

text \<open>
  Claim C9. A stored token whose payload has \<open>exp = 0\<close>, that is an expiry at the
  epoch, loaded at a current time in 2025: the token stays stored, the user is set,
  \<open>updateUI\<close> runs and access is kept. The same token with \<open>exp = 1\<close> is logged out.
\<close>

theorem token_expired_at_zero_kept:
  "getToken (loadUser (\<lambda>t. Some (example_payload (Some 0))) 1762041600000 example_auth_world)
     = Some (utf16 ''h.p.s'')
   \<and> hasAccess (loadUser (\<lambda>t. Some (example_payload (Some 0))) 1762041600000 example_auth_world)
   \<and> user (loadUser (\<lambda>t. Some (example_payload (Some 0))) 1762041600000 example_auth_world)
     = Some \<lparr>u_id = Some (utf16 ''u1''), u_email = Some (utf16 ''a@b.c''),
             u_name = Some (utf16 ''ann''), u_exp = Some 0\<rparr>
   \<and> ui_updates (loadUser (\<lambda>t. Some (example_payload (Some 0))) 1762041600000 example_auth_world) = 1
   \<and> loadUser (\<lambda>t. Some (example_payload (Some 1))) 1762041600000 example_auth_world
     = \<lparr>user = None, localStorage = Map.empty, api_token = None,
        location_href = utf16 ''/auth.html'', ui_updates = 0\<rparr>"
  by (simp add: loadUser_def example_auth_world_def example_payload_def getToken_def Let_def
      updateUI_def hasAccess_def isLoggedIn_def or_else_def utf16_eq_Nil logout_state)
    (simp add: utf16_def)

section \<open>Session ids of the API module\<close>

lemma decimal_nonempty: "decimal n \<noteq> []"
  by (subst decimal.simps) simp

lemma decimal_digits: "x \<in> set (decimal n) \<Longrightarrow> 48 \<le> x \<and> x \<le> 57"
proof (induction n rule: decimal.induct)
  case (1 n)
  show ?case
  proof (cases "n < 10")
    case True
    with "1.prems" show ?thesis by (subst (asm) decimal.simps) simp
  next
    case False
    with "1.prems" have "x \<in> set (decimal (n div 10)) \<or> x = 48 + n mod 10"
      by (subst (asm) decimal.simps) auto
    with "1.IH" [OF False] show ?thesis by auto
  qed
qed

lemma decimal_inj: "decimal n = decimal m \<Longrightarrow> n = m"
proof (induction n arbitrary: m rule: decimal.induct)
  case (1 n)
  show ?case
  proof (cases "n < 10")
    case True
    then have n: "decimal n = [48 + n]" by (subst decimal.simps) simp
    show ?thesis
    proof (cases "m < 10")
      case True
      then have "decimal m = [48 + m]" by (subst decimal.simps) simp
      with n "1.prems" show ?thesis by simp
    next
      case False
      then have "decimal m = decimal (m div 10) @ [48 + m mod 10]" by (subst decimal.simps) simp
      with n "1.prems" decimal_nonempty [of "m div 10"] show ?thesis by (cases "decimal (m div 10)") auto
    qed
  next
    case False
    then have n: "decimal n = decimal (n div 10) @ [48 + n mod 10]" by (subst decimal.simps) simp
    show ?thesis
    proof (cases "m < 10")
      case True
      then have "decimal m = [48 + m]" by (subst decimal.simps) simp
      with n "1.prems" decimal_nonempty [of "n div 10"] show ?thesis by (cases "decimal (n div 10)") auto
    next
      case m: False
      then have "decimal m = decimal (m div 10) @ [48 + m mod 10]" by (subst decimal.simps) simp
      with n "1.prems" have "decimal (n div 10) = decimal (m div 10)" "n mod 10 = m mod 10" by auto
      with "1.IH" [OF False, of "m div 10"] have "n div 10 = m div 10" "n mod 10 = m mod 10" by auto
      then show ?thesis by (metis div_mult_mod_eq)
    qed
  qed
qed

lemma split_at_first:
  "x \<notin> set xs \<Longrightarrow> x \<notin> set xs' \<Longrightarrow> xs @ x # ys = xs' @ x # ys' \<longleftrightarrow> xs = xs' \<and> ys = ys'"
proof (induction xs arbitrary: xs')
  case Nil
  then show ?case by (cases xs') auto
next
  case (Cons a xs)
  then show ?case by (cases xs') auto
qed

lemma generateSessionId_eq_iff:
  "generateSessionId rd1 = generateSessionId rd2
     \<longleftrightarrow> fst rd1 = fst rd2 \<and> take 9 (drop 2 (snd rd1)) = take 9 (drop 2 (snd rd2))"
proof -
  have u: "95 \<notin> set (decimal n)" for n using decimal_digits [of 95 n] by auto
  have "decimal (fst rd1) @ 95 # take 9 (drop 2 (snd rd1)) = decimal (fst rd2) @ 95 # take 9 (drop 2 (snd rd2))
          \<longleftrightarrow> decimal (fst rd1) = decimal (fst rd2) \<and> take 9 (drop 2 (snd rd1)) = take 9 (drop 2 (snd rd2))"
    using u [of "fst rd1"] u [of "fst rd2"] by (rule split_at_first)
  moreover have "decimal (fst rd1) = decimal (fst rd2) \<longleftrightarrow> fst rd1 = fst rd2"
    using decimal_inj by auto
  moreover have "utf16 ''_'' = [95]" by (simp add: utf16_def)
  ultimately show ?thesis
    by (simp add: generateSessionId_def)
qed

text \<open>
  Claim C10. Called without a session id, \<open>API.sendMessage\<close> sends the id that
  \<open>generateSessionId\<close> makes from the clock and random readings of that very call and
  changes nothing else of the state, so nothing is kept for the next call. Two such
  calls send two ids made from their own readings; the two ids are equal exactly when
  both the clock readings and the nine random characters are. A non-empty session id
  given by the caller is sent as it is.
\<close>

theorem api_sendMessage_session_ids:
  "api_sendMessage rd m None w
     = w\<lparr>requests := requests w @ [\<lparr>req_message = m, req_session_id = generateSessionId rd\<rparr>]\<rparr>
   \<and> requests (api_sendMessage rd2 m2 None (api_sendMessage rd1 m1 None w))
     = requests w @ [\<lparr>req_message = m1, req_session_id = generateSessionId rd1\<rparr>,
                     \<lparr>req_message = m2, req_session_id = generateSessionId rd2\<rparr>]
   \<and> (generateSessionId rd1 = generateSessionId rd2
        \<longleftrightarrow> fst rd1 = fst rd2 \<and> take 9 (drop 2 (snd rd1)) = take 9 (drop 2 (snd rd2)))
   \<and> (i \<noteq> [] \<longrightarrow> api_sendMessage rd m (Some i) w
                     = w\<lparr>requests := requests w @ [\<lparr>req_message = m, req_session_id = i\<rparr>]\<rparr>)"
  using generateSessionId_eq_iff [of rd1 rd2] by (simp add: api_sendMessage_def)



theorem api_sendMessage_session_ids_witness:
  "generateSessionId (1000, utf16 ''0.4fzyo82mvyr'') \<noteq> generateSessionId (1001, utf16 ''0.4fzyo82mvyr'')
   \<and> utf16 ''s1'' \<noteq> []
   \<and> requests (api_sendMessage (1000, utf16 ''0.4fzyo82mvyr'') (utf16 ''hi'') (Some (utf16 ''s1''))
                 (initial_world :: nat world))
       = [\<lparr>req_message = utf16 ''hi'', req_session_id = utf16 ''s1''\<rparr>]"
  using api_sendMessage_session_ids
    [of "(1000, utf16 ''0.4fzyo82mvyr'')" "utf16 ''hi''" "initial_world :: nat world"
        "(1001, utf16 ''0.4fzyo82mvyr'')" "utf16 ''hi''" "(1000, utf16 ''0.4fzyo82mvyr'')" "utf16 ''hi''"
        "utf16 ''s1''"]
  by (simp add: initial_world_def utf16_eq_Nil)

end
